theory Spec2Isabelle
  imports Complex_Main
begin

section \<open>Number Runner: gate options and the score arithmetic\<close>

text \<open>
  The embedding follows \<^verbatim>\<open>src/app/index.tsx\<close>. JavaScript numbers are modelled
  exactly: scores, operands and ids are integers (\<open>int\<close>), positions and random draws are
  reals; the rounding of IEEE doubles is not modelled.
\<close>

datatype OperationType = Multiply | Add | Subtract

text \<open>
  \<^verbatim>\<open>interface GateOption\<close>. The fields \<^verbatim>\<open>type\<close>, \<^verbatim>\<open>value\<close>, \<^verbatim>\<open>color\<close> carry a prefix here.
  The display string \<^verbatim>\<open>label\<close> (a symbol followed by the value) is not modelled: nothing
  in the game logic reads it.
\<close>

record GateOption =
  op_type :: OperationType
  op_value :: int
  op_color :: string

text \<open>
  \<^verbatim>\<open>calculateNewValue\<close> (lines 150-161). The \<^verbatim>\<open>default\<close> branch of the source's switch
  has no case here: the three constructors exhaust \<^verbatim>\<open>OperationType\<close>.
\<close>

fun calculateNewValue :: "int \<Rightarrow> GateOption \<Rightarrow> int" where
  "calculateNewValue currentValue option =
     (case op_type option of
        Multiply \<Rightarrow> currentValue * op_value option
      | Add \<Rightarrow> currentValue + op_value option
      | Subtract \<Rightarrow> max 0 (currentValue - op_value option))"

section \<open>Gate generation\<close>

text \<open>
  \<^verbatim>\<open>GAME_CONFIG\<close> (lines 102-111). Only the constants read by the game logic are kept;
  lane easing and gate geometry belong to the rendering.
\<close>

record GameConfig =
  playerSpeed :: real
  gateSpacing :: real
  totalGates :: int
  collisionThreshold :: real

definition GAME_CONFIG :: GameConfig where
  "GAME_CONFIG = \<lparr>playerSpeed = 1 / 10, gateSpacing = 15, totalGates = 10,
                   collisionThreshold = 2\<rparr>"

text \<open>\<^verbatim>\<open>interface GateData\<close>; the field \<^verbatim>\<open>id\<close> is \<open>gate_id\<close>.\<close>

record GateData =
  gate_id :: int
  zPosition :: real
  leftOption :: GateOption
  rightOption :: GateOption

text \<open>
  Reading a field of \<^verbatim>\<open>undefined\<close> throws; that is the only way the generator can fail.
\<close>

datatype error = TypeError

text \<open>The table \<^verbatim>\<open>operations\<close> of \<^verbatim>\<open>generateGateOptions\<close>: kind, then \<^verbatim>\<open>range[0]\<close> and \<^verbatim>\<open>range[1]\<close>.\<close>

definition operations :: "(OperationType \<times> int \<times> int) list" where
  "operations = [(Multiply, 2, 4), (Add, 10, 100), (Subtract, 5, 50)]"

text \<open>
  \<^verbatim>\<open>getRandomOption\<close> (lines 125-141). The random source is a stream \<open>random\<close> of draws
  and \<open>k\<close> the number of draws made so far: each \<^verbatim>\<open>Math.random()\<close> reads \<open>random k\<close> and
  moves on. An index outside the table gives \<^verbatim>\<open>undefined\<close>, and \<^verbatim>\<open>op.type\<close> then throws
  before the second draw.
\<close>

definition getRandomOption :: "(nat \<Rightarrow> real) \<Rightarrow> nat \<Rightarrow> error + (GateOption \<times> nat)" where
  "getRandomOption random k =
     (let idx = \<lfloor>random k * real (length operations)\<rfloor> in
      if idx < 0 \<or> int (length operations) \<le> idx then Inl TypeError
      else
        let (ty, lo, hi) = operations ! nat idx;
            val = (if ty = Multiply
                   then \<lfloor>random (k + 1) * real_of_int (hi - lo + 1)\<rfloor> + lo
                   else \<lfloor>random (k + 1) * real_of_int (hi - lo + 1)\<rfloor> + lo);
            isPositive = (ty = Multiply \<or> ty = Add);
            color = (if isPositive then ''#00ff88'' else ''#ff3366'')
        in Inr (\<lparr>op_type = ty, op_value = val, op_color = color\<rparr>, k + 2))"

text \<open>\<^verbatim>\<open>generateGateOptions\<close> (lines 118-147): the left option is drawn first.\<close>

definition generateGateOptions ::
    "(nat \<Rightarrow> real) \<Rightarrow> nat \<Rightarrow> error + ((GateOption \<times> GateOption) \<times> nat)" where
  "generateGateOptions random k =
     (case getRandomOption random k of
        Inl e \<Rightarrow> Inl e
      | Inr (left, k1) \<Rightarrow>
          (case getRandomOption random k1 of
             Inl e \<Rightarrow> Inl e
           | Inr (right, k2) \<Rightarrow> Inr ((left, right), k2)))"

text \<open>
  The loop of the \<^verbatim>\<open>gates\<close> memo (lines 537-549): \<open>i\<close> is the loop counter,
  \<open>generatedGates\<close> the array built so far.
\<close>

function gates_loop ::
    "GameConfig \<Rightarrow> (nat \<Rightarrow> real) \<Rightarrow> int \<Rightarrow> nat \<Rightarrow> GateData list \<Rightarrow> error + GateData list" where
  "gates_loop cfg random i k generatedGates =
     (if i < totalGates cfg then
        (case generateGateOptions random k of
           Inl e \<Rightarrow> Inl e
         | Inr (options, k') \<Rightarrow>
             gates_loop cfg random (i + 1) k'
               (generatedGates @
                 [\<lparr>gate_id = i, zPosition = (real_of_int i + 1) * gateSpacing cfg,
                   leftOption = fst options, rightOption = snd options\<rparr>]))
      else Inr generatedGates)"
  by pat_completeness auto
termination
  by (relation "measure (\<lambda>(cfg, random, i, k, gs). nat (totalGates cfg - i))") auto

declare gates_loop.simps [simp del]

definition gates_memo :: "GameConfig \<Rightarrow> (nat \<Rightarrow> real) \<Rightarrow> error + GateData list" where
  "gates_memo cfg random = gates_loop cfg random 0 0 []"

section \<open>The run: state, collision check and the frame callback\<close>

text \<open>\<^verbatim>\<open>interface ScorePopup\<close>, fields prefixed.\<close>

record ScorePopup =
  popup_id :: int
  popup_value :: string
  popup_color :: string
  popup_x :: real
  popup_y :: real

text \<open>The two properties of the ambient \<^verbatim>\<open>window\<close> that \<^verbatim>\<open>checkCollision\<close> reads.\<close>

record Window =
  innerWidth :: real
  innerHeight :: real

text \<open>
  The state of one run: the \<^verbatim>\<open>useState\<close> cells of \<^verbatim>\<open>NumberRunner\<close> (lines 528-533), its
  refs \<^verbatim>\<open>popupIdCounter\<close> and \<^verbatim>\<open>processedGates\<close>, the ref \<^verbatim>\<open>currentZ\<close> of \<^verbatim>\<open>Player\<close>, and
  the callbacks handed to \<^verbatim>\<open>setTimeout\<close> that have not run yet, each represented by the
  \<^verbatim>\<open>newValue\<close> it captured.
\<close>

record RunState =
  playerValue :: int
  targetLane :: int
  playerZ :: real
  gameOver :: bool
  finalScore :: int
  scorePopups :: "ScorePopup list"
  popupIdCounter :: int
  processedGates :: "int set"
  currentZ :: real
  timeouts :: "int list"

definition initialState :: RunState where
  "initialState = \<lparr>playerValue = 10, targetLane = 0, playerZ = 0, gameOver = False,
                    finalScore = 0, scorePopups = [], popupIdCounter = 0,
                    processedGates = {}, currentZ = 0, timeouts = []\<rparr>"

text \<open>What one resolution of a gate did: the gate, the value handed to \<^verbatim>\<open>setPlayerValue\<close>,
  the difference \<^verbatim>\<open>scoreDiff\<close> and the popup that shows it.\<close>

record Event =
  ev_gateId :: int
  ev_newValue :: int
  ev_delta :: int
  ev_popup :: ScorePopup

text \<open>The decimal text a template literal gives an integer.\<close>

function showNat :: "nat \<Rightarrow> string" where
  "showNat n = (if n < 10 then [''0123456789'' ! n]
                else showNat (n div 10) @ [''0123456789'' ! (n mod 10)])"
  by pat_completeness auto
termination
  by (relation "measure (\<lambda>n. n)") auto

declare showNat.simps [simp del]

definition showInt :: "int \<Rightarrow> string" where
  "showInt i = (if i < 0 then ''-'' @ showNat (nat (- i)) else showNat (nat i))"

text \<open>
  The body of the \<^verbatim>\<open>forEach\<close> in \<^verbatim>\<open>checkCollision\<close> (lines 562-604) for one gate.
  \<open>playerValue0\<close> and \<open>targetLane0\<close> are the values the callback closed over, fixed for
  the whole call; the refs are read and written in \<open>st\<close>. \<^verbatim>\<open>setPlayerValue\<close> overwrites
  the pending value, \<^verbatim>\<open>setScorePopups\<close> appends. The second and third components collect
  the events of the call and whether the game-over timeout was set.
\<close>

definition collisionStep ::
    "GameConfig \<Rightarrow> Window \<Rightarrow> int \<Rightarrow> int \<Rightarrow> real \<Rightarrow>
     RunState \<times> Event list \<times> bool \<Rightarrow> GateData \<Rightarrow> RunState \<times> Event list \<times> bool" where
  "collisionStep cfg window playerValue0 targetLane0 z acc gate =
     (let (st, events, justFinished) = acc;
          distance = \<bar>z - zPosition gate\<bar>
      in if distance < collisionThreshold cfg \<and> gate_id gate \<notin> processedGates st then
           let selectedOption = (if targetLane0 = 0 then leftOption gate else rightOption gate);
               oldValue = playerValue0;
               newValue = calculateNewValue playerValue0 selectedOption;
               scoreDiff = newValue - oldValue;
               popupText = (if scoreDiff > 0 then ''+'' @ showInt scoreDiff else showInt scoreDiff);
               screenX = (if targetLane0 = 0 then 80 else innerWidth window - 120);
               screenY = innerHeight window * (3 / 10);
               newPopup = \<lparr>popup_id = popupIdCounter st, popup_value = popupText,
                           popup_color = op_color selectedOption,
                           popup_x = screenX, popup_y = screenY\<rparr>;
               isLast = (gate_id gate = totalGates cfg - 1)
           in (st\<lparr>processedGates := insert (gate_id gate) (processedGates st),
                   playerValue := newValue,
                   popupIdCounter := popupIdCounter st + 1,
                   scorePopups := scorePopups st @ [newPopup],
                   timeouts := (if isLast then timeouts st @ [newValue] else timeouts st)\<rparr>,
               events @ [\<lparr>ev_gateId = gate_id gate, ev_newValue = newValue,
                           ev_delta = scoreDiff, ev_popup = newPopup\<rparr>],
               justFinished \<or> isLast)
         else (st, events, justFinished))"

text \<open>\<^verbatim>\<open>checkCollision\<close>: the gates are visited in array order.\<close>

definition checkCollision ::
    "GameConfig \<Rightarrow> Window \<Rightarrow> GateData list \<Rightarrow> RunState \<Rightarrow> real \<Rightarrow> RunState \<times> Event list \<times> bool" where
  "checkCollision cfg window gates st z =
     foldl (collisionStep cfg window (playerValue st) (targetLane st) z) (st, [], False) gates"

text \<open>\<^verbatim>\<open>handlePositionUpdate\<close> (lines 610-616).\<close>

definition handlePositionUpdate ::
    "GameConfig \<Rightarrow> Window \<Rightarrow> GateData list \<Rightarrow> RunState \<Rightarrow> real \<Rightarrow> RunState \<times> Event list \<times> bool" where
  "handlePositionUpdate cfg window gates st z =
     checkCollision cfg window gates (st\<lparr>playerZ := z\<rparr>) z"

text \<open>
  One tick. \<^verbatim>\<open>setTargetLane\<close> stores the lane the swipe handler chose; the frame callback
  of \<^verbatim>\<open>Player\<close> (lines 177-195) adds the forward step to \<^verbatim>\<open>currentZ\<close> and reports the new
  position. Neither checks its argument. The callback's guard on the mesh ref holds once
  the mesh is mounted and is taken as passed; the sideways easing and the rotation of the
  mesh are rendering and are left out.
\<close>

definition advance ::
    "GameConfig \<Rightarrow> Window \<Rightarrow> GateData list \<Rightarrow> RunState \<Rightarrow> real \<Rightarrow> int \<Rightarrow>
     RunState \<times> Event list \<times> bool" where
  "advance cfg window gates st forwardDelta lane =
     (let st1 = st\<lparr>targetLane := lane\<rparr>;
          z = currentZ st1 + forwardDelta
      in handlePositionUpdate cfg window gates (st1\<lparr>currentZ := z\<rparr>) z)"

text \<open>The frame callback itself: the step of a frame that took \<open>delta\<close> seconds.\<close>

definition useFrame ::
    "GameConfig \<Rightarrow> Window \<Rightarrow> GateData list \<Rightarrow> RunState \<Rightarrow> real \<Rightarrow> RunState \<times> Event list \<times> bool" where
  "useFrame cfg window gates st delta =
     advance cfg window gates st (playerSpeed cfg * (delta * 60)) (targetLane st)"


text \<open>A run: ticks applied in order, each given its forward step and lane; the events of
  all ticks are collected.\<close>

fun run ::
    "GameConfig \<Rightarrow> Window \<Rightarrow> GateData list \<Rightarrow> RunState \<Rightarrow> (real \<times> int) list \<Rightarrow>
     RunState \<times> Event list" where
  "run cfg window gates st [] = (st, [])"
| "run cfg window gates st ((forwardDelta, lane) # ticks) =
     (let (st1, events1, fin1) = advance cfg window gates st forwardDelta lane;
          (st2, events2) = run cfg window gates st1 ticks
      in (st2, events1 @ events2))"

section \<open>Auxiliary notions and test data\<close>

text \<open>The proximity test of line 565 and the choice of option of line 569, named so that
  statements can refer to them.\<close>

definition inWindow :: "GameConfig \<Rightarrow> real \<Rightarrow> GateData \<Rightarrow> bool" where
  "inWindow cfg z gate = (\<bar>z - zPosition gate\<bar> < collisionThreshold cfg)"

definition selected :: "int \<Rightarrow> GateData \<Rightarrow> GateOption" where
  "selected lane gate = (if lane = 0 then leftOption gate else rightOption gate)"

text \<open>An operand lies in the range that the table \<open>operations\<close> gives its kind.\<close>

definition operand_in_range :: "GateOption \<Rightarrow> bool" where
  "operand_in_range option =
     (\<exists>(ty, lo, hi) \<in> set operations.
        ty = op_type option \<and> lo \<le> op_value option \<and> op_value option \<le> hi)"

text \<open>A tick list in which the runner never retreats.\<close>

definition forward :: "(real \<times> int) list \<Rightarrow> bool" where
  "forward ticks = (\<forall>(forwardDelta, lane) \<in> set ticks. 0 \<le> forwardDelta)"


text \<open>Scenario A of the specification: one gate, the source's spacing and threshold.\<close>

definition cfgA :: GameConfig where
  "cfgA = \<lparr>playerSpeed = 1 / 10, gateSpacing = 15, totalGates = 1, collisionThreshold = 2\<rparr>"

definition gateA :: GateData where
  "gateA = \<lparr>gate_id = 0, zPosition = 15,
             leftOption = \<lparr>op_type = Multiply, op_value = 3, op_color = ''#00ff88''\<rparr>,
             rightOption = \<lparr>op_type = Add, op_value = 50, op_color = ''#00ff88''\<rparr>\<rparr>"

definition randomA :: "nat \<Rightarrow> real" where
  "randomA n = (if n = 0 then 0 else if n = 3 then 89 / 200 else 1 / 2)"

text \<open>Two gates at the source's spacing, with the source's threshold and with one wide
  enough for both windows to overlap.\<close>

definition cfg2 :: GameConfig where
  "cfg2 = \<lparr>playerSpeed = 1 / 10, gateSpacing = 15, totalGates = 2, collisionThreshold = 2\<rparr>"

definition cfgWide :: GameConfig where
  "cfgWide = \<lparr>playerSpeed = 1 / 10, gateSpacing = 15, totalGates = 2, collisionThreshold = 10\<rparr>"

definition gateB :: GateData where
  "gateB = \<lparr>gate_id = 1, zPosition = 30,
             leftOption = \<lparr>op_type = Subtract, op_value = 20, op_color = ''#ff3366''\<rparr>,
             rightOption = \<lparr>op_type = Multiply, op_value = 2, op_color = ''#00ff88''\<rparr>\<rparr>"


definition window0 :: Window where
  "window0 = \<lparr>innerWidth = 400, innerHeight = 800\<rparr>"

section \<open>Properties\<close>

text \<open>
  C1. For every score and every gate option, the value computed at a gate is the score
  times the operand for Multiply, the score plus the operand for Add, and the larger of
  zero and the score minus the operand for Subtract; a Subtract never gives a negative
  value.
\<close>

theorem calculateNewValue_cases:
  "calculateNewValue s \<lparr>op_type = Multiply, op_value = v, op_color = c\<rparr> = s * v
   \<and> calculateNewValue s \<lparr>op_type = Add, op_value = v, op_color = c\<rparr> = s + v
   \<and> calculateNewValue s \<lparr>op_type = Subtract, op_value = v, op_color = c\<rparr> = max 0 (s - v)
   \<and> 0 \<le> calculateNewValue s \<lparr>op_type = Subtract, op_value = v, op_color = c\<rparr>"
  by simp


section \<open>The generator\<close>

lemma floor_draw:
  assumes "0 \<le> r" "r < 1" "0 < n"
  shows "0 \<le> \<lfloor>r * real_of_int n\<rfloor> \<and> \<lfloor>r * real_of_int n\<rfloor> < n"
proof -
  have "0 \<le> r * real_of_int n" using assms by simp
  moreover have "r * real_of_int n < real_of_int n" using assms by simp
  ultimately show ?thesis by (simp add: floor_less_iff)
qed

lemma operand_in_range_iff:
  "operand_in_range option =
     (case op_type option of
        Multiply \<Rightarrow> 2 \<le> op_value option \<and> op_value option \<le> 4
      | Add \<Rightarrow> 10 \<le> op_value option \<and> op_value option \<le> 100
      | Subtract \<Rightarrow> 5 \<le> op_value option \<and> op_value option \<le> 50)"
  by (cases "op_type option") (auto simp: operand_in_range_def operations_def)

lemma getRandomOption_total:
  assumes "0 \<le> random k" "random k < 1" "0 \<le> random (k + 1)" "random (k + 1) < 1"
  shows "\<exists>option. getRandomOption random k = Inr (option, k + 2)
           \<and> operand_in_range option
           \<and> op_color option = (if op_type option = Subtract then ''#ff3366'' else ''#00ff88'')"
proof -
  define idx where "idx = \<lfloor>random k * real (length operations)\<rfloor>"
  have "0 \<le> idx \<and> idx < 3"
    using floor_draw [OF assms(1,2), of 3] by (simp add: idx_def operations_def)
  then consider "idx = 0" | "idx = 1" | "idx = 2" by linarith
  then show ?thesis
  proof cases
    case 1
    with floor_draw [OF assms(3,4), of 3] show ?thesis
      unfolding getRandomOption_def idx_def [symmetric]
      by (simp add: operations_def operand_in_range_def)
  next
    case 2
    with floor_draw [OF assms(3,4), of 91] show ?thesis
      unfolding getRandomOption_def idx_def [symmetric]
      by (simp add: operations_def operand_in_range_def)
  next
    case 3
    with floor_draw [OF assms(3,4), of 46] show ?thesis
      unfolding getRandomOption_def idx_def [symmetric]
      by (simp add: operations_def operand_in_range_def)
  qed
qed

lemma generateGateOptions_total:
  assumes "\<forall>n. 0 \<le> random n \<and> random n < 1"
  shows "\<exists>left right. generateGateOptions random k = Inr ((left, right), k + 4)
           \<and> operand_in_range left \<and> operand_in_range right"
proof -
  obtain left where l: "getRandomOption random k = Inr (left, k + 2)" "operand_in_range left"
    using getRandomOption_total [of random k] assms by blast
  obtain right where r: "getRandomOption random (k + 2) = Inr (right, k + 2 + 2)"
      "operand_in_range right"
    using getRandomOption_total [of random "k + 2"] assms by blast
  show ?thesis using l r by (simp add: generateGateOptions_def)
qed

lemma gates_loop_shape:
  "gates_loop cfg random i k acc = Inr gs \<Longrightarrow>
     map gate_id gs = map gate_id acc @ [i..totalGates cfg - 1]
     \<and> map zPosition gs
         = map zPosition acc
           @ map (\<lambda>j. (real_of_int j + 1) * gateSpacing cfg) [i..totalGates cfg - 1]"
proof (induction cfg random i k acc rule: gates_loop.induct)
  case (1 cfg random i k acc)
  show ?case
  proof (cases "i < totalGates cfg")
    case True
    then obtain options k' where g: "generateGateOptions random k = Inr (options, k')"
      using "1.prems" by (subst (asm) gates_loop.simps) (auto split: sum.splits)
    let ?acc = "acc @ [\<lparr>gate_id = i, zPosition = (real_of_int i + 1) * gateSpacing cfg,
                   leftOption = fst options, rightOption = snd options\<rparr>]"
    have "gates_loop cfg random (i + 1) k' ?acc = Inr gs"
      using "1.prems" True g by (subst (asm) gates_loop.simps) simp
    from "1.IH" [OF True g refl this] True show ?thesis
      by (simp add: upto_rec1 [of i])
  next
    case False
    then show ?thesis using "1.prems" by (subst (asm) gates_loop.simps) simp
  qed
qed

lemma gates_loop_total:
  "\<forall>n. 0 \<le> random n \<and> random n < 1 \<Longrightarrow> \<exists>gs. gates_loop cfg random i k acc = Inr gs"
proof (induction cfg random i k acc rule: gates_loop.induct)
  case (1 cfg random i k acc)
  show ?case
  proof (cases "i < totalGates cfg")
    case True
    obtain left right where g: "generateGateOptions random k = Inr ((left, right), k + 4)"
      using generateGateOptions_total [OF "1.prems", of k] by blast
    from "1.IH" [OF True g refl "1.prems"] True g show ?thesis
      by (subst gates_loop.simps) simp
  next
    case False
    then show ?thesis by (subst gates_loop.simps) simp
  qed
qed

lemma gates_loop_in_range:
  "gates_loop cfg random i k acc = Inr gs \<Longrightarrow>
   \<forall>n. 0 \<le> random n \<and> random n < 1 \<Longrightarrow>
   \<forall>g \<in> set acc. operand_in_range (leftOption g) \<and> operand_in_range (rightOption g) \<Longrightarrow>
   \<forall>g \<in> set gs. operand_in_range (leftOption g) \<and> operand_in_range (rightOption g)"
proof (induction cfg random i k acc rule: gates_loop.induct)
  case (1 cfg random i k acc)
  show ?case
  proof (cases "i < totalGates cfg")
    case True
    obtain left right where g: "generateGateOptions random k = Inr ((left, right), k + 4)"
      and lr: "operand_in_range left" "operand_in_range right"
      using generateGateOptions_total [OF "1.prems"(2), of k] by blast
    let ?acc = "acc @ [\<lparr>gate_id = i, zPosition = (real_of_int i + 1) * gateSpacing cfg,
                   leftOption = left, rightOption = right\<rparr>]"
    have a: "gates_loop cfg random (i + 1) (k + 4) ?acc = Inr gs"
      using "1.prems"(1) True g by (subst (asm) gates_loop.simps) simp
    have b: "\<forall>g \<in> set ?acc. operand_in_range (leftOption g) \<and> operand_in_range (rightOption g)"
      using "1.prems"(3) lr by simp
    have "fst (left, right) = left" "snd (left, right) = right" by simp_all
    with "1.IH" [OF True g refl] a b "1.prems"(2) show ?thesis by metis
  next
    case False
    then show ?thesis using "1.prems" by (subst (asm) gates_loop.simps) simp
  qed
qed

lemma gates_memo_total:
  "\<forall>n. 0 \<le> random n \<and> random n < 1 \<Longrightarrow> \<exists>gs. gates_memo cfg random = Inr gs"
  unfolding gates_memo_def by (rule gates_loop_total)

lemma gates_memo_in_range:
  "gates_memo cfg random = Inr gs \<Longrightarrow> \<forall>n. 0 \<le> random n \<and> random n < 1 \<Longrightarrow>
   \<forall>g \<in> set gs. operand_in_range (leftOption g) \<and> operand_in_range (rightOption g)"
  unfolding gates_memo_def using gates_loop_in_range [of cfg random 0 0 "[]" gs] by simp

lemma gates_memo_shape:
  assumes "gates_memo cfg random = Inr gs"
  shows "map gate_id gs = [0..totalGates cfg - 1]"
    and "map zPosition gs = map (\<lambda>j. (real_of_int j + 1) * gateSpacing cfg) [0..totalGates cfg - 1]"
  using gates_loop_shape [of cfg random 0 0 "[]" gs] assms by (simp_all add: gates_memo_def)


lemma generateGateOptions_A:
  "generateGateOptions randomA 0 = Inr ((leftOption gateA, rightOption gateA), 4)"
  by (simp add: generateGateOptions_def getRandomOption_def operations_def randomA_def gateA_def)

lemma gates_memo_A: "gates_memo cfgA randomA = Inr [gateA]"
proof -
  have "gates_loop cfgA randomA 1 4 [gateA] = Inr [gateA]"
    by (subst gates_loop.simps) (simp add: cfgA_def)
  then show ?thesis
    unfolding gates_memo_def
    by (subst gates_loop.simps) (simp add: generateGateOptions_A, simp add: cfgA_def gateA_def)
qed


section \<open>Claims about the generator\<close>

text \<open>
  C8. Whenever the two draws lie in the half-open unit interval, as those of
  \<^verbatim>\<open>Math.random\<close> do, \<open>getRandomOption\<close> returns an option whose operand is inside the
  inclusive range of its kind (2 to 4 for Multiply, 10 to 100 for Add, 5 to 50 for Subtract)
  and whose colour depends on the kind alone: the positive colour for Multiply and Add,
  the negative one for Subtract.
\<close>

theorem getRandomOption_in_range:
  assumes "0 \<le> random k" "random k < 1" "0 \<le> random (k + 1)" "random (k + 1) < 1"
  shows "\<exists>option. getRandomOption random k = Inr (option, k + 2)
           \<and> (case op_type option of
                 Multiply \<Rightarrow> 2 \<le> op_value option \<and> op_value option \<le> 4
               | Add \<Rightarrow> 10 \<le> op_value option \<and> op_value option \<le> 100
               | Subtract \<Rightarrow> 5 \<le> op_value option \<and> op_value option \<le> 50)
           \<and> op_color option
               = (case op_type option of
                    Multiply \<Rightarrow> ''#00ff88'' | Add \<Rightarrow> ''#00ff88'' | Subtract \<Rightarrow> ''#ff3366'')"
proof -
  obtain option where o: "getRandomOption random k = Inr (option, k + 2)"
      "operand_in_range option"
      "op_color option = (if op_type option = Subtract then ''#ff3366'' else ''#00ff88'')"
    using getRandomOption_total [OF assms] by blast
  have "op_color option
          = (case op_type option of
               Multiply \<Rightarrow> ''#00ff88'' | Add \<Rightarrow> ''#00ff88'' | Subtract \<Rightarrow> ''#ff3366'')"
    using o(3) by (cases "op_type option") simp_all
  then show ?thesis using o(1,2) by (auto simp: operand_in_range_iff)
qed

theorem getRandomOption_in_range_witness:
  "0 \<le> randomA 2 \<and> randomA 2 < 1 \<and> 0 \<le> randomA (2 + 1) \<and> randomA (2 + 1) < 1
   \<and> getRandomOption randomA 2
       = Inr (\<lparr>op_type = Add, op_value = 50, op_color = ''#00ff88''\<rparr>, 4)"
proof -
  have h: "0 \<le> randomA 2" "randomA 2 < 1" "0 \<le> randomA (2 + 1)" "randomA (2 + 1) < 1"
    by (simp_all add: randomA_def)
  from getRandomOption_in_range [OF h] obtain option
    where "getRandomOption randomA 2 = Inr (option, 2 + 2)" by blast
  moreover have "getRandomOption randomA 2
       = Inr (\<lparr>op_type = Add, op_value = 50, op_color = ''#00ff88''\<rparr>, 4)"
    by (simp add: getRandomOption_def operations_def randomA_def)
  ultimately show ?thesis using h by simp
qed

text \<open>
  C7. Every gate sequence the generator returns has \<open>totalGates\<close> gates, their ids are
  the ordinals 0 to \<open>totalGates - 1\<close> in order, and gate \<open>i\<close> stands at \<open>(i + 1) * gateSpacing\<close>.
\<close>

theorem gates_memo_positions:
  assumes "gates_memo cfg random = Inr gs"
  shows "length gs = nat (totalGates cfg)
       \<and> map gate_id gs = [0..totalGates cfg - 1]
       \<and> (\<forall>i < length gs. gate_id (gs ! i) = int i
             \<and> zPosition (gs ! i) = (real i + 1) * gateSpacing cfg)"
proof -
  have ids: "map gate_id gs = [0..totalGates cfg - 1]"
    by (rule gates_memo_shape(1) [OF assms])
  have len: "length gs = nat (totalGates cfg)"
    using arg_cong [OF ids, of length] by simp
  have "gate_id (gs ! i) = int i \<and> zPosition (gs ! i) = (real i + 1) * gateSpacing cfg"
    if "i < length gs" for i
  proof -
    have u: "[0..totalGates cfg - 1] ! i = int i"
      using that len by (simp add: nth_upto)
    have "gate_id (gs ! i) = map gate_id gs ! i" using that by simp
    moreover have "zPosition (gs ! i) = map zPosition gs ! i" using that by simp
    ultimately show ?thesis
      using ids gates_memo_shape(2) [OF assms] u that len by simp
  qed
  then show ?thesis using ids len by blast
qed

theorem gates_memo_positions_witness:
  "gates_memo cfgA randomA = Inr [gateA]
   \<and> length [gateA] = nat (totalGates cfgA)
   \<and> map gate_id [gateA] = [0..totalGates cfgA - 1]
   \<and> gate_id ([gateA] ! 0) = 0 \<and> zPosition ([gateA] ! 0) = 15"
  using gates_memo_positions [OF gates_memo_A] gates_memo_A
  by (simp add: cfgA_def gateA_def)



section \<open>The collision check\<close>

lemma checkCollision_Nil: "checkCollision cfg w [] st z = (st, [], False)"
  by (simp add: checkCollision_def)

lemma checkCollision_snoc:
  "checkCollision cfg w (gs @ [g]) st z =
     collisionStep cfg w (playerValue st) (targetLane st) z (checkCollision cfg w gs st z) g"
  by (simp add: checkCollision_def)

lemma collisionStep_skip:
  "\<not> (inWindow cfg z g \<and> gate_id g \<notin> processedGates st) \<Longrightarrow>
   collisionStep cfg w pv lane z (st, evs, fin) g = (st, evs, fin)"
  by (auto simp add: collisionStep_def inWindow_def)

lemma collisionStep_hit:
  "inWindow cfg z g \<Longrightarrow> gate_id g \<notin> processedGates st \<Longrightarrow>
   \<exists>st' e. collisionStep cfg w pv lane z (st, evs, fin) g
             = (st', evs @ [e], fin \<or> gate_id g = totalGates cfg - 1)
     \<and> processedGates st' = insert (gate_id g) (processedGates st)
     \<and> playerValue st' = calculateNewValue pv (selected lane g)
     \<and> ev_gateId e = gate_id g
     \<and> ev_newValue e = calculateNewValue pv (selected lane g)
     \<and> ev_delta e = calculateNewValue pv (selected lane g) - pv
     \<and> popup_color (ev_popup e) = op_color (selected lane g)
     \<and> currentZ st' = currentZ st \<and> playerZ st' = playerZ st \<and> targetLane st' = targetLane st
     \<and> gameOver st' = gameOver st \<and> finalScore st' = finalScore st
     \<and> timeouts st' = (if gate_id g = totalGates cfg - 1
                         then timeouts st @ [calculateNewValue pv (selected lane g)]
                         else timeouts st)"
  by (simp add: collisionStep_def inWindow_def selected_def Let_def
      del: calculateNewValue.simps)

lemma checkCollision_processed:
  "processedGates (fst (checkCollision cfg w gs st z))
     = processedGates st \<union> gate_id ` {g \<in> set gs. inWindow cfg z g}"
proof (induction gs rule: rev_induct)
  case Nil
  show ?case by (simp add: checkCollision_Nil)
next
  case (snoc g gs)
  obtain st1 evs fin where c: "checkCollision cfg w gs st z = (st1, evs, fin)"
    by (cases "checkCollision cfg w gs st z") auto
  show ?case
  proof (cases "inWindow cfg z g \<and> gate_id g \<notin> processedGates st1")
    case True
    with collisionStep_hit [of cfg z g st1 w "playerValue st" "targetLane st" evs fin]
    show ?thesis using snoc c by (auto simp: checkCollision_snoc)
  next
    case False
    with collisionStep_skip [OF False, of w "playerValue st" "targetLane st" evs fin]
    show ?thesis using snoc c by (auto simp: checkCollision_snoc)
  qed
qed

text \<open>The loop invariant of the \<^verbatim>\<open>forEach\<close>, after any prefix of the gates.\<close>

lemma checkCollision_inv:
  assumes "checkCollision cfg w gs st z = (st', evs, fin)"
  shows "set (map ev_gateId evs) = processedGates st' - processedGates st
       \<and> distinct (map ev_gateId evs)
       \<and> (\<forall>e \<in> set evs. \<exists>g \<in> set gs. gate_id g = ev_gateId e \<and> inWindow cfg z g
              \<and> ev_newValue e = calculateNewValue (playerValue st) (selected (targetLane st) g)
              \<and> ev_delta e = ev_newValue e - playerValue st
              \<and> popup_color (ev_popup e) = op_color (selected (targetLane st) g))
       \<and> playerValue st' = (if evs = [] then playerValue st else ev_newValue (last evs))
       \<and> currentZ st' = currentZ st \<and> playerZ st' = playerZ st \<and> targetLane st' = targetLane st
       \<and> gameOver st' = gameOver st \<and> finalScore st' = finalScore st
       \<and> fin = (totalGates cfg - 1 \<in> ev_gateId ` set evs)
       \<and> timeouts st'
           = timeouts st @ map ev_newValue (filter (\<lambda>e. ev_gateId e = totalGates cfg - 1) evs)"
  using assms
proof (induction gs arbitrary: st' evs fin rule: rev_induct)
  case Nil
  then show ?case by (simp add: checkCollision_Nil)
next
  case (snoc g gs)
  obtain st1 evs1 fin1 where c: "checkCollision cfg w gs st z = (st1, evs1, fin1)"
    by (cases "checkCollision cfg w gs st z") auto
  note IH = snoc.IH [OF c]
  have p1: "processedGates st \<subseteq> processedGates st1"
    using checkCollision_processed [of cfg w gs st z] c by auto
  show ?case
  proof (cases "inWindow cfg z g \<and> gate_id g \<notin> processedGates st1")
    case True
    then obtain e where
      r: "collisionStep cfg w (playerValue st) (targetLane st) z (st1, evs1, fin1) g
             = (st', evs1 @ [e], fin1 \<or> gate_id g = totalGates cfg - 1)"
      and f: "processedGates st' = insert (gate_id g) (processedGates st1)"
        "playerValue st' = calculateNewValue (playerValue st) (selected (targetLane st) g)"
        "ev_gateId e = gate_id g"
        "ev_newValue e = calculateNewValue (playerValue st) (selected (targetLane st) g)"
        "ev_delta e
           = calculateNewValue (playerValue st) (selected (targetLane st) g) - playerValue st"
        "popup_color (ev_popup e) = op_color (selected (targetLane st) g)"
        "currentZ st' = currentZ st1" "playerZ st' = playerZ st1"
        "targetLane st' = targetLane st1"
        "gameOver st' = gameOver st1" "finalScore st' = finalScore st1"
        "timeouts st'
           = (if gate_id g = totalGates cfg - 1
              then timeouts st1 @ [calculateNewValue (playerValue st) (selected (targetLane st) g)]
              else timeouts st1)"
      using collisionStep_hit [of cfg z g st1 w "playerValue st" "targetLane st" evs1 fin1]
        snoc.prems c by (auto simp: checkCollision_snoc)
    have e: "evs = evs1 @ [e]" "fin = (fin1 \<or> gate_id g = totalGates cfg - 1)"
      using r snoc.prems c by (auto simp: checkCollision_snoc)
    have g: "gate_id g \<notin> processedGates st" using True p1 by auto
    show ?thesis
      unfolding e using IH f True g by (auto simp: image_iff simp del: calculateNewValue.simps)
  next
    case False
    have "st' = st1 \<and> evs = evs1 \<and> fin = fin1"
      using collisionStep_skip [OF False, of w "playerValue st" "targetLane st" evs1 fin1]
        snoc.prems c by (auto simp: checkCollision_snoc)
    then show ?thesis using IH by (auto simp del: calculateNewValue.simps)
  qed
qed

lemma checkCollision_idle:
  "\<forall>g \<in> set gs. inWindow cfg z g \<longrightarrow> gate_id g \<in> processedGates st \<Longrightarrow>
   checkCollision cfg w gs st z = (st, [], False)"
proof (induction gs rule: rev_induct)
  case Nil
  show ?case by (simp add: checkCollision_Nil)
next
  case (snoc g gs)
  then have "checkCollision cfg w gs st z = (st, [], False)" by simp
  moreover have "\<not> (inWindow cfg z g \<and> gate_id g \<notin> processedGates st)"
    using snoc.prems by simp
  ultimately show ?case by (simp add: checkCollision_snoc collisionStep_skip)
qed

section \<open>One tick and whole runs\<close>

lemma advance_eq:
  "advance cfg w gs st forwardDelta lane
     = checkCollision cfg w gs
         (st\<lparr>targetLane := lane, currentZ := currentZ st + forwardDelta,
              playerZ := currentZ st + forwardDelta\<rparr>)
         (currentZ st + forwardDelta)"
  by (simp add: advance_def handlePositionUpdate_def Let_def)

lemma advance_processed:
  "processedGates (fst (advance cfg w gs st forwardDelta lane))
     = processedGates st \<union> gate_id ` {g \<in> set gs. inWindow cfg (currentZ st + forwardDelta) g}"
  by (simp add: advance_eq checkCollision_processed)

lemma advance_inv:
  assumes "advance cfg w gs st forwardDelta lane = (st', evs, fin)"
  shows "set (map ev_gateId evs) = processedGates st' - processedGates st"
    and "distinct (map ev_gateId evs)"
    and "\<forall>e \<in> set evs. \<exists>g \<in> set gs. gate_id g = ev_gateId e
              \<and> inWindow cfg (currentZ st + forwardDelta) g
              \<and> ev_newValue e = calculateNewValue (playerValue st) (selected lane g)
              \<and> ev_delta e = ev_newValue e - playerValue st
              \<and> popup_color (ev_popup e) = op_color (selected lane g)"
    and "playerValue st' = (if evs = [] then playerValue st else ev_newValue (last evs))"
    and "currentZ st' = currentZ st + forwardDelta"
    and "playerZ st' = currentZ st + forwardDelta"
    and "targetLane st' = lane"
    and "fin = (totalGates cfg - 1 \<in> ev_gateId ` set evs)"
    and "timeouts st'
           = timeouts st @ map ev_newValue (filter (\<lambda>e. ev_gateId e = totalGates cfg - 1) evs)"
  using checkCollision_inv [OF assms [unfolded advance_eq]]
  by (simp_all del: calculateNewValue.simps)

lemma advance_idle:
  assumes "\<forall>g \<in> set gs. inWindow cfg (currentZ st + forwardDelta) g \<longrightarrow> gate_id g \<in> processedGates st"
  shows "advance cfg w gs st forwardDelta lane
           = (st\<lparr>targetLane := lane, currentZ := currentZ st + forwardDelta,
                  playerZ := currentZ st + forwardDelta\<rparr>, [], False)"
  unfolding advance_eq using assms by (intro checkCollision_idle) simp

lemma run_Cons:
  "run cfg w gs st ((forwardDelta, lane) # ticks)
     = (fst (run cfg w gs (fst (advance cfg w gs st forwardDelta lane)) ticks),
        fst (snd (advance cfg w gs st forwardDelta lane))
        @ snd (run cfg w gs (fst (advance cfg w gs st forwardDelta lane)) ticks))"
  by (simp add: split_beta Let_def)

lemma run_events:
  "set (map ev_gateId (snd (run cfg w gs st ticks)))
      = processedGates (fst (run cfg w gs st ticks)) - processedGates st
   \<and> distinct (map ev_gateId (snd (run cfg w gs st ticks)))
   \<and> processedGates st \<subseteq> processedGates (fst (run cfg w gs st ticks))"
proof (induction ticks arbitrary: st)
  case Nil
  show ?case by simp
next
  case (Cons tick ticks)
  obtain forwardDelta lane where t: "tick = (forwardDelta, lane)" by (cases tick)
  obtain st1 evs1 fin1 where a: "advance cfg w gs st forwardDelta lane = (st1, evs1, fin1)"
    by (cases "advance cfg w gs st forwardDelta lane") auto
  have s: "processedGates st \<subseteq> processedGates st1"
    using advance_processed [of cfg w gs st forwardDelta lane] a by auto
  from advance_inv(1,2) [OF a] Cons.IH [of st1] s show ?case
    unfolding t run_Cons a by (simp del: run.simps) blast
qed



lemma calculateNewValue_nonneg:
  assumes "0 \<le> s" "operand_in_range option"
  shows "0 \<le> calculateNewValue s option"
proof (cases "op_type option")
  case Multiply
  then have "0 \<le> op_value option" using assms(2) by (simp add: operand_in_range_iff)
  then show ?thesis using Multiply assms(1) by simp
next
  case Add
  then have "0 \<le> op_value option" using assms(2) by (simp add: operand_in_range_iff)
  then show ?thesis using Add assms(1) by simp
next
  case Subtract
  then show ?thesis by simp
qed

section \<open>Claims about the run\<close>

text \<open>
  C6. Scenario A: one gate at position 15 with Multiply 3 on the left and Add 50 on the
  right, threshold 2, starting score 10. A single tick with forward step 15 in the left
  lane resolves gate 0 with the left option: the score becomes 30, the one event is for
  gate 0 with difference 20 (shown as \<^verbatim>\<open>+20\<close>), and the game-over timeout is set.
\<close>

theorem scenario_A:
  "playerValue initialState = 10
   \<and> advance cfgA window [gateA] initialState 15 0
       = (\<lparr>playerValue = 30, targetLane = 0, playerZ = 15, gameOver = False, finalScore = 0,
           scorePopups = [\<lparr>popup_id = 0, popup_value = ''+20'', popup_color = ''#00ff88'',
                            popup_x = 80, popup_y = innerHeight window * (3 / 10)\<rparr>],
           popupIdCounter = 1, processedGates = {0}, currentZ = 15, timeouts = [30]\<rparr>,
          [\<lparr>ev_gateId = 0, ev_newValue = 30, ev_delta = 20,
            ev_popup = \<lparr>popup_id = 0, popup_value = ''+20'', popup_color = ''#00ff88'',
                         popup_x = 80, popup_y = innerHeight window * (3 / 10)\<rparr>\<rparr>],
          True)"
  by (simp add: advance_def handlePositionUpdate_def checkCollision_def collisionStep_def
      cfgA_def gateA_def initialState_def showInt_def showNat.simps Let_def)

text \<open>
  C10. Within one tick every resolution is computed from the score the tick started with:
  each unprocessed gate inside the window gets exactly one event, the value of that event
  is the gate's chosen operation applied to the tick-start score, and the score after the
  tick is the value of the last event. Earlier resolutions of the same tick do not enter it.
  Two gates can share a tick whenever the threshold exceeds half of a positive spacing:
  the point halfway between the gates at one and two spacings is inside both windows.
\<close>

theorem same_tick_resolutions_do_not_compound:
  assumes "advance cfg window gates st forwardDelta lane = (st', events, justFinished)"
  shows "set (map ev_gateId events)
           = gate_id ` {g \<in> set gates. inWindow cfg (currentZ st + forwardDelta) g}
             - processedGates st
       \<and> distinct (map ev_gateId events)
       \<and> (\<forall>e \<in> set events. \<exists>g \<in> set gates. gate_id g = ev_gateId e
              \<and> ev_newValue e = calculateNewValue (playerValue st) (selected lane g)
              \<and> ev_delta e = ev_newValue e - playerValue st)
       \<and> playerValue st' = (if events = [] then playerValue st else ev_newValue (last events))
       \<and> (0 < gateSpacing cfg \<and> gateSpacing cfg / 2 < collisionThreshold cfg
            \<and> zPosition g0 = gateSpacing cfg \<and> zPosition g1 = 2 * gateSpacing cfg
          \<longrightarrow> inWindow cfg (3 / 2 * gateSpacing cfg) g0 \<and> inWindow cfg (3 / 2 * gateSpacing cfg) g1)"
proof -
  have overlap: "0 < gateSpacing cfg \<and> gateSpacing cfg / 2 < collisionThreshold cfg
            \<and> zPosition g0 = gateSpacing cfg \<and> zPosition g1 = 2 * gateSpacing cfg
          \<longrightarrow> inWindow cfg (3 / 2 * gateSpacing cfg) g0 \<and> inWindow cfg (3 / 2 * gateSpacing cfg) g1"
    by (auto simp: inWindow_def)
  have "processedGates st'
          = processedGates st \<union> gate_id ` {g \<in> set gates. inWindow cfg (currentZ st + forwardDelta) g}"
    using advance_processed [of cfg window gates st forwardDelta lane] assms by simp
  then have "set (map ev_gateId events)
           = gate_id ` {g \<in> set gates. inWindow cfg (currentZ st + forwardDelta) g}
             - processedGates st"
    using advance_inv(1) [OF assms] by blast
  moreover have "\<forall>e \<in> set events. \<exists>g \<in> set gates. gate_id g = ev_gateId e
              \<and> ev_newValue e = calculateNewValue (playerValue st) (selected lane g)
              \<and> ev_delta e = ev_newValue e - playerValue st"
    using advance_inv(3) [OF assms] by blast
  ultimately show ?thesis
    using advance_inv(2,4) [OF assms] overlap by blast
qed

lemma two_gates_one_tick:
  "advance cfgWide window0 [gateA, gateB] initialState 22 0
     = (\<lparr>playerValue = 0, targetLane = 0, playerZ = 22, gameOver = False, finalScore = 0,
         scorePopups = [\<lparr>popup_id = 0, popup_value = ''+20'', popup_color = ''#00ff88'',
                          popup_x = 80, popup_y = 240\<rparr>,
                        \<lparr>popup_id = 1, popup_value = ''-10'', popup_color = ''#ff3366'',
                          popup_x = 80, popup_y = 240\<rparr>],
         popupIdCounter = 2, processedGates = {1, 0}, currentZ = 22, timeouts = [0]\<rparr>,
        [\<lparr>ev_gateId = 0, ev_newValue = 30, ev_delta = 20,
          ev_popup = \<lparr>popup_id = 0, popup_value = ''+20'', popup_color = ''#00ff88'',
                       popup_x = 80, popup_y = 240\<rparr>\<rparr>,
         \<lparr>ev_gateId = 1, ev_newValue = 0, ev_delta = - 10,
          ev_popup = \<lparr>popup_id = 1, popup_value = ''-10'', popup_color = ''#ff3366'',
                       popup_x = 80, popup_y = 240\<rparr>\<rparr>],
        True)"
  by (simp add: advance_def handlePositionUpdate_def checkCollision_def collisionStep_def
      cfgWide_def gateA_def gateB_def initialState_def window0_def showInt_def showNat.simps
      Let_def)

theorem same_tick_resolutions_do_not_compound_witness:
  "map ev_gateId (fst (snd (advance cfgWide window0 [gateA, gateB] initialState 22 0))) = [0, 1]
   \<and> map ev_newValue (fst (snd (advance cfgWide window0 [gateA, gateB] initialState 22 0)))
       = [calculateNewValue 10 (leftOption gateA), calculateNewValue 10 (leftOption gateB)]
   \<and> playerValue (fst (advance cfgWide window0 [gateA, gateB] initialState 22 0))
       = calculateNewValue 10 (leftOption gateB)
   \<and> calculateNewValue 10 (leftOption gateB) = 0
   \<and> calculateNewValue (calculateNewValue 10 (leftOption gateA)) (leftOption gateB) = 10
   \<and> gateSpacing cfgWide / 2 < collisionThreshold cfgWide
   \<and> inWindow cfgWide (3 / 2 * gateSpacing cfgWide) gateA
   \<and> inWindow cfgWide (3 / 2 * gateSpacing cfgWide) gateB"
proof -
  have h: "0 < gateSpacing cfgWide \<and> gateSpacing cfgWide / 2 < collisionThreshold cfgWide
      \<and> zPosition gateA = gateSpacing cfgWide \<and> zPosition gateB = 2 * gateSpacing cfgWide"
    by (simp add: cfgWide_def gateA_def gateB_def)
  have v: "calculateNewValue 10 (leftOption gateA) = 30" "calculateNewValue 10 (leftOption gateB) = 0"
    "calculateNewValue 30 (leftOption gateB) = 10"
    by (simp_all add: gateA_def gateB_def)
  from same_tick_resolutions_do_not_compound [OF two_gates_one_tick, of gateA gateB] h
  have "inWindow cfgWide (3 / 2 * gateSpacing cfgWide) gateA
      \<and> inWindow cfgWide (3 / 2 * gateSpacing cfgWide) gateB"
    by blast
  then show ?thesis using h v by (simp add: two_gates_one_tick)
qed



text \<open>
  C9. From a score that is not negative, with every operand of every gate inside the range
  of its kind, the score is never negative: neither the value of any resolution nor the
  score after any sequence of ticks, whatever the lanes and the steps.
\<close>

theorem score_never_negative:
  assumes "0 \<le> playerValue st"
    and "\<forall>g \<in> set gates. operand_in_range (leftOption g) \<and> operand_in_range (rightOption g)"
  shows "0 \<le> playerValue (fst (run cfg window gates st ticks))
       \<and> (\<forall>e \<in> set (snd (run cfg window gates st ticks)). 0 \<le> ev_newValue e)"
  using assms(1)
proof (induction ticks arbitrary: st)
  case Nil
  then show ?case by simp
next
  case (Cons tick ticks)
  obtain forwardDelta lane where t: "tick = (forwardDelta, lane)" by (cases tick)
  obtain st1 evs1 fin1 where a: "advance cfg window gates st forwardDelta lane = (st1, evs1, fin1)"
    by (cases "advance cfg window gates st forwardDelta lane") auto
  have ev: "0 \<le> ev_newValue e" if mem: "e \<in> set evs1" for e
  proof -
    obtain g where g: "g \<in> set gates"
        "ev_newValue e = calculateNewValue (playerValue st) (selected lane g)"
      using advance_inv(3) [OF a] mem by blast
    have "operand_in_range (selected lane g)"
      using assms(2) g(1) by (simp add: selected_def)
    then show ?thesis
      using calculateNewValue_nonneg [OF Cons.prems] g(2) by simp
  qed
  have "0 \<le> playerValue st1"
  proof (cases "evs1 = []")
    case True
    then show ?thesis using advance_inv(4) [OF a] Cons.prems by simp
  next
    case False
    then have "last evs1 \<in> set evs1" by simp
    then show ?thesis using advance_inv(4) [OF a] False ev by simp
  qed
  from Cons.IH [OF this] ev show ?case
    unfolding t run_Cons a by (auto simp del: run.simps)
qed

theorem score_never_negative_witness:
  "0 \<le> playerValue initialState
   \<and> operand_in_range (leftOption gateA) \<and> operand_in_range (rightOption gateA)
   \<and> operand_in_range (leftOption gateB) \<and> operand_in_range (rightOption gateB)
   \<and> playerValue (fst (run cfg2 window0 [gateA, gateB] initialState [(30, 0)])) = 0
   \<and> map ev_newValue (snd (run cfg2 window0 [gateA, gateB] initialState [(30, 0)])) = [0]"
proof -
  have h1: "0 \<le> playerValue initialState" by (simp add: initialState_def)
  have h2: "\<forall>g \<in> set [gateA, gateB].
         operand_in_range (leftOption g) \<and> operand_in_range (rightOption g)"
    by (simp add: operand_in_range_def operations_def gateA_def gateB_def)
  have r: "playerValue (fst (run cfg2 window0 [gateA, gateB] initialState [(30, 0)])) = 0
      \<and> map ev_newValue (snd (run cfg2 window0 [gateA, gateB] initialState [(30, 0)])) = [0]"
    by (simp add: advance_def handlePositionUpdate_def checkCollision_def collisionStep_def
        cfg2_def gateA_def gateB_def initialState_def window0_def showInt_def showNat.simps
        Let_def)
  show ?thesis
    using score_never_negative [OF h1 h2, of cfg2 window0 "[(30, 0)]"] h1 h2 r by simp
qed

text \<open>
  C3. A gate resolves at most once. Over any sequence of ticks from any state no gate id
  occurs in two events, and no event is for a gate that was already processed at the
  start; the processed set only grows. A tick changes the score only through the events it
  emits: without an event the score stays, otherwise it is the value of the last event.
  A second tick at the position of the first, with forward step 0 and any lane, emits no
  event, sets no timeout and changes nothing but the stored lane.
\<close>

theorem gate_resolves_at_most_once:
  "distinct (map ev_gateId (snd (run cfg window gates st ticks)))
   \<and> (\<forall>e \<in> set (snd (run cfg window gates st ticks)). ev_gateId e \<notin> processedGates st)
   \<and> processedGates st \<subseteq> processedGates (fst (run cfg window gates st ticks))
   \<and> playerValue (fst (advance cfg window gates st forwardDelta lane))
       = (if fst (snd (advance cfg window gates st forwardDelta lane)) = [] then playerValue st
          else ev_newValue (last (fst (snd (advance cfg window gates st forwardDelta lane)))))
   \<and> advance cfg window gates (fst (advance cfg window gates st forwardDelta lane)) 0 lane'
       = ((fst (advance cfg window gates st forwardDelta lane))\<lparr>targetLane := lane'\<rparr>, [], False)"
proof -
  obtain st1 evs1 fin1 where a: "advance cfg window gates st forwardDelta lane = (st1, evs1, fin1)"
    by (cases "advance cfg window gates st forwardDelta lane") auto
  have z: "currentZ st1 = currentZ st + forwardDelta" "playerZ st1 = currentZ st + forwardDelta"
    using advance_inv(5,6) [OF a] by simp_all
  have "processedGates st1
          = processedGates st \<union> gate_id ` {g \<in> set gates. inWindow cfg (currentZ st + forwardDelta) g}"
    using advance_processed [of cfg window gates st forwardDelta lane] a by simp
  then have "\<forall>g \<in> set gates. inWindow cfg (currentZ st1 + 0) g \<longrightarrow> gate_id g \<in> processedGates st1"
    using z by auto
  from advance_idle [OF this, of window lane']
  have "advance cfg window gates st1 0 lane'
          = (st1\<lparr>targetLane := lane', currentZ := currentZ st1 + 0, playerZ := currentZ st1 + 0\<rparr>,
             [], False)" .
  moreover have "st1\<lparr>targetLane := lane', currentZ := currentZ st1 + 0, playerZ := currentZ st1 + 0\<rparr>
                   = st1\<lparr>targetLane := lane'\<rparr>"
    using z by simp
  ultimately have twice: "advance cfg window gates st1 0 lane' = (st1\<lparr>targetLane := lane'\<rparr>, [], False)"
    by simp
  have "\<forall>e \<in> set (snd (run cfg window gates st ticks)). ev_gateId e \<notin> processedGates st"
    using run_events [of cfg window gates st ticks] by auto
  then show ?thesis
    using run_events [of cfg window gates st ticks] twice a advance_inv(4) [OF a] by simp
qed

theorem gate_resolves_at_most_once_witness:
  "map ev_gateId (snd (run cfg2 window0 [gateA, gateB] initialState [(14, 0), (1, 1), (1, 0)])) = [0]
   \<and> playerValue (fst (run cfg2 window0 [gateA, gateB] initialState [(14, 0), (1, 1), (1, 0)])) = 30
   \<and> distinct (map ev_gateId
         (snd (run cfg2 window0 [gateA, gateB] initialState [(14, 0), (1, 1), (1, 0)])))"
proof -
  have "map ev_gateId (snd (run cfg2 window0 [gateA, gateB] initialState [(14, 0), (1, 1), (1, 0)])) = [0]
   \<and> playerValue (fst (run cfg2 window0 [gateA, gateB] initialState [(14, 0), (1, 1), (1, 0)])) = 30"
    by (simp add: advance_def handlePositionUpdate_def checkCollision_def collisionStep_def
        cfg2_def gateA_def gateB_def initialState_def window0_def showInt_def showNat.simps
        Let_def)
  then show ?thesis
    using gate_resolves_at_most_once
      [of cfg2 window0 "[gateA, gateB]" initialState "[(14, 0), (1, 1), (1, 0)]"]
    by blast
qed



section \<open>Forward runs\<close>

lemma forward_Cons: "forward ((forwardDelta, lane) # ticks) = (0 \<le> forwardDelta \<and> forward ticks)"
  by (simp add: forward_def)

lemma advance_past:
  assumes "gid \<notin> processedGates st"
    and "\<forall>g \<in> set gates. gate_id g = gid \<longrightarrow>
           zPosition g + collisionThreshold cfg \<le> currentZ st + forwardDelta"
  shows "gid \<notin> processedGates (fst (advance cfg w gates st forwardDelta lane))"
proof -
  have "\<not> inWindow cfg (currentZ st + forwardDelta) g" if "g \<in> set gates" "gate_id g = gid" for g
    using assms(2) that by (auto simp: inWindow_def)
  then show ?thesis
    using assms(1) by (auto simp: advance_processed)
qed

lemma run_past:
  assumes "forward ticks"
    and "gid \<notin> processedGates st"
    and "\<forall>g \<in> set gates. gate_id g = gid \<longrightarrow> zPosition g + collisionThreshold cfg \<le> currentZ st"
  shows "gid \<notin> processedGates (fst (run cfg w gates st ticks))"
  using assms
proof (induction ticks arbitrary: st)
  case Nil
  then show ?case by simp
next
  case (Cons tick ticks)
  obtain forwardDelta lane where t: "tick = (forwardDelta, lane)" by (cases tick)
  obtain st1 evs1 fin1 where a: "advance cfg w gates st forwardDelta lane = (st1, evs1, fin1)"
    by (cases "advance cfg w gates st forwardDelta lane") auto
  have fd: "0 \<le> forwardDelta" and fw: "forward ticks"
    using Cons.prems(1) by (simp_all add: t forward_Cons)
  have p: "\<forall>g \<in> set gates. gate_id g = gid \<longrightarrow>
           zPosition g + collisionThreshold cfg \<le> currentZ st + forwardDelta"
    using Cons.prems(3) fd by auto
  have "gid \<notin> processedGates st1"
    using advance_past [OF Cons.prems(2) p, of w lane] a by simp
  moreover have "\<forall>g \<in> set gates. gate_id g = gid \<longrightarrow>
           zPosition g + collisionThreshold cfg \<le> currentZ st1"
    using p advance_inv(5) [OF a] by simp
  ultimately have "gid \<notin> processedGates (fst (run cfg w gates st1 ticks))"
    using Cons.IH [OF fw] by blast
  then show ?case unfolding t run_Cons a by (simp del: run.simps)
qed








section \<open>Generated test gates and retreating ticks\<close>



text \<open>With a positive threshold, the tick that steps exactly onto a gate processes it,
  whichever way the step points, and emits its event if the gate was unprocessed.\<close>

lemma step_onto_gate:
  assumes "g \<in> set gates" "0 < collisionThreshold cfg"
  shows "gate_id g \<in> processedGates (fst (advance cfg w gates st (zPosition g - currentZ st) lane))"
    and "gate_id g \<notin> processedGates st \<Longrightarrow>
         gate_id g \<in> ev_gateId ` set (fst (snd (advance cfg w gates st (zPosition g - currentZ st) lane)))"
proof -
  have win: "inWindow cfg (currentZ st + (zPosition g - currentZ st)) g"
    using assms(2) by (simp add: inWindow_def)
  then show p: "gate_id g \<in> processedGates (fst (advance cfg w gates st (zPosition g - currentZ st) lane))"
    using assms(1) unfolding advance_processed by blast
  obtain st' evs fin where a: "advance cfg w gates st (zPosition g - currentZ st) lane = (st', evs, fin)"
    by (cases "advance cfg w gates st (zPosition g - currentZ st) lane") auto
  show "gate_id g \<in> ev_gateId ` set (fst (snd (advance cfg w gates st (zPosition g - currentZ st) lane)))"
    if "gate_id g \<notin> processedGates st"
    using advance_inv(1) [OF a] p that unfolding a by auto
qed

section \<open>Claims about skipped gates, the end of the run and the arguments of a tick\<close>

text \<open>
  C5, as the code has it. A gate can be jumped over, and it then stays unresolved as long
  as the runner does not retreat. If a gate is unprocessed and one tick puts the runner at
  least a threshold past it, the gate is not resolved on that tick, and on no later tick
  of a continuation whose forward steps are all non-negative: its id never enters the
  processed set and no event is ever emitted for it.
\<close>

theorem skipped_gate_stays_unresolved:
  assumes "gid \<notin> processedGates st"
    and "\<forall>g \<in> set gates. gate_id g = gid \<longrightarrow>
           zPosition g + collisionThreshold cfg \<le> currentZ st + forwardDelta"
    and "forward ticks"
  shows "gid \<notin> processedGates (fst (advance cfg window gates st forwardDelta lane))
       \<and> gid \<notin> processedGates (fst (run cfg window gates st ((forwardDelta, lane) # ticks)))
       \<and> (\<forall>e \<in> set (snd (run cfg window gates st ((forwardDelta, lane) # ticks))).
             ev_gateId e \<noteq> gid)"
proof -
  obtain st1 evs1 fin1 where a: "advance cfg window gates st forwardDelta lane = (st1, evs1, fin1)"
    by (cases "advance cfg window gates st forwardDelta lane") auto
  have n1: "gid \<notin> processedGates st1"
    using advance_past [OF assms(1,2), of window lane] a by simp
  have "\<forall>g \<in> set gates. gate_id g = gid \<longrightarrow>
           zPosition g + collisionThreshold cfg \<le> currentZ st1"
    using assms(2) advance_inv(5) [OF a] by simp
  from run_past [OF assms(3) n1 this, of window]
  have "gid \<notin> processedGates (fst (run cfg window gates st1 ticks))" .
  then have n: "gid \<notin> processedGates (fst (run cfg window gates st ((forwardDelta, lane) # ticks)))"
    unfolding run_Cons a by (simp del: run.simps)
  then have "\<forall>e \<in> set (snd (run cfg window gates st ((forwardDelta, lane) # ticks))).
             ev_gateId e \<noteq> gid"
    using run_events [of cfg window gates st "(forwardDelta, lane) # ticks"] by auto
  then show ?thesis using n n1 a by simp
qed

theorem skipped_gate_stays_unresolved_witness:
  "0 \<notin> processedGates initialState
   \<and> currentZ initialState \<le> zPosition gateA - collisionThreshold cfg2
   \<and> zPosition gateA + collisionThreshold cfg2 \<le> currentZ initialState + 20
   \<and> gate_id gateB \<noteq> 0
   \<and> forward [(10, 0), (5, 1)]
   \<and> advance cfg2 window0 [gateA, gateB] initialState 20 0
       = (initialState\<lparr>playerZ := 20, currentZ := 20\<rparr>, [], False)
   \<and> 0 \<notin> processedGates
           (fst (run cfg2 window0 [gateA, gateB] initialState ((20, 0) # [(10, 0), (5, 1)])))
   \<and> 0 \<notin> set (map ev_gateId
         (snd (run cfg2 window0 [gateA, gateB] initialState ((20, 0) # [(10, 0), (5, 1)]))))"
proof -
  have h1: "0 \<notin> processedGates initialState" by (simp add: initialState_def)
  have h2: "\<forall>g \<in> set [gateA, gateB]. gate_id g = 0 \<longrightarrow>
         zPosition g + collisionThreshold cfg2 \<le> currentZ initialState + 20"
    by (simp add: gateA_def gateB_def cfg2_def initialState_def)
  have h3: "forward [(10, 0), (5, 1)]" by (simp add: forward_def)
  have b: "currentZ initialState \<le> zPosition gateA - collisionThreshold cfg2"
    "zPosition gateA + collisionThreshold cfg2 \<le> currentZ initialState + 20"
    "gate_id gateB \<noteq> 0"
    by (simp_all add: gateA_def gateB_def cfg2_def initialState_def)
  have s: "advance cfg2 window0 [gateA, gateB] initialState 20 0
       = (initialState\<lparr>playerZ := 20, currentZ := 20\<rparr>, [], False)"
    by (simp add: advance_def handlePositionUpdate_def checkCollision_def collisionStep_def
        cfg2_def gateA_def gateB_def initialState_def Let_def)
  show ?thesis
    using skipped_gate_stays_unresolved [OF h1 h2 h3, of window0 0] h1 h3 b s by auto
qed

text \<open>
  C5, as stated, fails: no gate stays unresolved on every later tick whatever. With two
  gates at 15 and 30 and threshold 2, a first tick with step 20 moves the runner from before
  the window of gate 0 to past it and resolves nothing. A later tick with step \<open>- 5\<close>
  is accepted, lands on 15 and resolves gate 0: the score goes from 10 to 30 and an event
  for gate 0 is emitted.
\<close>

theorem skipped_gate_resolved_by_retreat:
  "currentZ initialState \<le> zPosition gateA - collisionThreshold cfg2
   \<and> zPosition gateA + collisionThreshold cfg2 \<le> currentZ initialState + 20
   \<and> advance cfg2 window0 [gateA, gateB] initialState 20 0
       = (initialState\<lparr>playerZ := 20, currentZ := 20\<rparr>, [], False)
   \<and> advance cfg2 window0 [gateA, gateB] (initialState\<lparr>playerZ := 20, currentZ := 20\<rparr>) (- 5) 0
       = (\<lparr>playerValue = 30, targetLane = 0, playerZ = 15, gameOver = False, finalScore = 0,
           scorePopups = [\<lparr>popup_id = 0, popup_value = ''+20'', popup_color = ''#00ff88'',
                            popup_x = 80, popup_y = 240\<rparr>],
           popupIdCounter = 1, processedGates = {0}, currentZ = 15, timeouts = []\<rparr>,
          [\<lparr>ev_gateId = 0, ev_newValue = 30, ev_delta = 20,
            ev_popup = \<lparr>popup_id = 0, popup_value = ''+20'', popup_color = ''#00ff88'',
                         popup_x = 80, popup_y = 240\<rparr>\<rparr>],
          False)"
  by (simp add: advance_def handlePositionUpdate_def checkCollision_def collisionStep_def
      cfg2_def gateA_def gateB_def initialState_def window0_def showInt_def showNat.simps Let_def)




text \<open>The frame callback never retreats: with a speed and a frame time that are not
  negative it is a tick with a forward step that is not negative, in the lane already
  stored.\<close>

lemma useFrame_forward:
  assumes "0 \<le> playerSpeed cfg" "0 \<le> delta"
  shows "useFrame cfg w gs st delta
           = advance cfg w gs st (playerSpeed cfg * (delta * 60)) (targetLane st)
       \<and> 0 \<le> playerSpeed cfg * (delta * 60)"
  using assms by (simp add: useFrame_def)

text \<open>
  C2, as the code has it. A tick checks neither argument and cannot fail. For every
  forward step, negative or not, the position becomes the old position plus the step; every
  lane value is stored, lane 0 choosing the left option and any other value the right one;
  and every unprocessed gate within the threshold of the new position is processed and
  gets its event, computed from the score at the start of the tick.
\<close>

theorem advance_checks_no_argument:
  "currentZ (fst (advance cfg window gates st forwardDelta lane)) = currentZ st + forwardDelta
   \<and> playerZ (fst (advance cfg window gates st forwardDelta lane)) = currentZ st + forwardDelta
   \<and> targetLane (fst (advance cfg window gates st forwardDelta lane)) = lane
   \<and> processedGates (fst (advance cfg window gates st forwardDelta lane))
       = processedGates st
         \<union> gate_id ` {g \<in> set gates. \<bar>currentZ st + forwardDelta - zPosition g\<bar> < collisionThreshold cfg}
   \<and> set (map ev_gateId (fst (snd (advance cfg window gates st forwardDelta lane))))
       = processedGates (fst (advance cfg window gates st forwardDelta lane)) - processedGates st
   \<and> (\<forall>e \<in> set (fst (snd (advance cfg window gates st forwardDelta lane))).
         \<exists>g \<in> set gates. gate_id g = ev_gateId e
           \<and> ev_newValue e
               = calculateNewValue (playerValue st)
                   (if lane = 0 then leftOption g else rightOption g))"
proof -
  obtain st' evs fin where a: "advance cfg window gates st forwardDelta lane = (st', evs, fin)"
    by (cases "advance cfg window gates st forwardDelta lane") auto
  have p: "processedGates st'
       = processedGates st
         \<union> gate_id ` {g \<in> set gates. \<bar>currentZ st + forwardDelta - zPosition g\<bar> < collisionThreshold cfg}"
    using advance_processed [of cfg window gates st forwardDelta lane] a
    by (simp add: inWindow_def)
  have e: "\<forall>e \<in> set evs. \<exists>g \<in> set gates. gate_id g = ev_gateId e
           \<and> ev_newValue e
               = calculateNewValue (playerValue st)
                   (if lane = 0 then leftOption g else rightOption g)"
    using advance_inv(3) [OF a] unfolding selected_def by blast
  show ?thesis
    unfolding a using advance_inv(1,5,6,7) [OF a] p e by simp
qed

theorem advance_checks_no_argument_witness:
  "currentZ (fst (advance cfgA window0 [gateA] (initialState\<lparr>playerZ := 18, currentZ := 18\<rparr>) (- 3) 7))
     = 15
   \<and> targetLane (fst (advance cfgA window0 [gateA] (initialState\<lparr>playerZ := 18, currentZ := 18\<rparr>) (- 3) 7))
       = 7
   \<and> processedGates
        (fst (advance cfgA window0 [gateA] (initialState\<lparr>playerZ := 18, currentZ := 18\<rparr>) (- 3) 7))
       = {0}
   \<and> map ev_newValue
        (fst (snd (advance cfgA window0 [gateA]
                     (initialState\<lparr>playerZ := 18, currentZ := 18\<rparr>) (- 3) 7)))
       = [calculateNewValue 10 (rightOption gateA)]"
proof -
  have adv: "advance cfgA window0 [gateA] (initialState\<lparr>playerZ := 18, currentZ := 18\<rparr>) (- 3) 7
       = (\<lparr>playerValue = 60, targetLane = 7, playerZ = 15, gameOver = False, finalScore = 0,
           scorePopups = [\<lparr>popup_id = 0, popup_value = ''+50'', popup_color = ''#00ff88'',
                            popup_x = 280, popup_y = 240\<rparr>],
           popupIdCounter = 1, processedGates = {0}, currentZ = 15, timeouts = [60]\<rparr>,
          [\<lparr>ev_gateId = 0, ev_newValue = 60, ev_delta = 50,
            ev_popup = \<lparr>popup_id = 0, popup_value = ''+50'', popup_color = ''#00ff88'',
                         popup_x = 280, popup_y = 240\<rparr>\<rparr>],
          True)"
    by (simp add: advance_def handlePositionUpdate_def checkCollision_def collisionStep_def
        cfgA_def gateA_def initialState_def window0_def showInt_def showNat.simps Let_def)
  show ?thesis
    using advance_checks_no_argument
      [of cfgA window0 "[gateA]" "initialState\<lparr>playerZ := 18, currentZ := 18\<rparr>" "- 3" 7]
    unfolding adv by (simp add: gateA_def)
qed

text \<open>
  C2, as stated, fails. In scenario A a first tick with step 18 jumps over gate 0. A second
  tick with step \<open>- 3\<close> is accepted: the position goes back to 15, gate 0 is processed,
  the score changes from 10 to 30 and an event is emitted. From the start, a tick with
  step 15 and lane 7 is accepted as well: lane 7 is stored and the right option applied,
  giving 60.
\<close>

theorem invalid_arguments_accepted:
  "advance cfgA window0 [gateA] initialState 18 0
     = (initialState\<lparr>playerZ := 18, currentZ := 18\<rparr>, [], False)
   \<and> advance cfgA window0 [gateA] (initialState\<lparr>playerZ := 18, currentZ := 18\<rparr>) (- 3) 0
       = (\<lparr>playerValue = 30, targetLane = 0, playerZ = 15, gameOver = False, finalScore = 0,
           scorePopups = [\<lparr>popup_id = 0, popup_value = ''+20'', popup_color = ''#00ff88'',
                            popup_x = 80, popup_y = 240\<rparr>],
           popupIdCounter = 1, processedGates = {0}, currentZ = 15, timeouts = [30]\<rparr>,
          [\<lparr>ev_gateId = 0, ev_newValue = 30, ev_delta = 20,
            ev_popup = \<lparr>popup_id = 0, popup_value = ''+20'', popup_color = ''#00ff88'',
                         popup_x = 80, popup_y = 240\<rparr>\<rparr>],
          True)
   \<and> advance cfgA window0 [gateA] initialState 15 7
       = (\<lparr>playerValue = 60, targetLane = 7, playerZ = 15, gameOver = False, finalScore = 0,
           scorePopups = [\<lparr>popup_id = 0, popup_value = ''+50'', popup_color = ''#00ff88'',
                            popup_x = 280, popup_y = 240\<rparr>],
           popupIdCounter = 1, processedGates = {0}, currentZ = 15, timeouts = [60]\<rparr>,
          [\<lparr>ev_gateId = 0, ev_newValue = 60, ev_delta = 50,
            ev_popup = \<lparr>popup_id = 0, popup_value = ''+50'', popup_color = ''#00ff88'',
                         popup_x = 280, popup_y = 240\<rparr>\<rparr>],
          True)"
  by (simp add: advance_def handlePositionUpdate_def checkCollision_def collisionStep_def
      cfgA_def gateA_def initialState_def window0_def showInt_def showNat.simps Let_def)


end
